theory Spec2Isabelle
  imports Main "HOL-Library.AList"
begin

section \<open>The CSV to JSON converter of \<^verbatim>\<open>main.go\<close>\<close>

text \<open>
  The development embeds \<^verbatim>\<open>processFile\<close> of \<^verbatim>\<open>src/main.go\<close>: the row
  validation chain, the loop over the CSV reader, and the write-out of the JSON
  document and of the error report.

  Go strings are byte sequences and \<^verbatim>\<open>len\<close> counts bytes; HOL's \<open>string\<close>
  is a list of 8-bit characters, so \<open>length\<close> is Go's \<^verbatim>\<open>len\<close>.
\<close>

subsection \<open>Constants and the output schema (lines 23-54)\<close>

definition ID :: string where "ID = ''INTERNAL_ID''"
definition FName :: string where "FName = ''FIRST_NAME''"
definition MName :: string where "MName = ''MIDDLE_NAME''"
definition LName :: string where "LName = ''LAST_NAME''"

text \<open>The Go constant \<^verbatim>\<open>Phone\<close>; the name \<open>Phone\<close> is taken by the field of \<open>Record\<close>.\<close>
definition PhoneNum :: string where "PhoneNum = ''PHONE_NUM''"

record Name =
  First :: string
  Middle :: string
  Last :: string

record Record =
  InternalID :: int
  Name :: Name
  Phone :: string

subsection \<open>Library functions the validation calls\<close>

text \<open>
  \<^verbatim>\<open>strconv.Atoi\<close> (Go 1.13, 64-bit \<^verbatim>\<open>int\<close>). Strings of 1 to 18 bytes take
  the fast path: an optional sign, then decimal digits only. Every other string goes
  through \<^verbatim>\<open>ParseInt(s, 10, 0)\<close>, which scans the digits left to right and stops
  at the first offending byte or at the first overflow.
\<close>

datatype NumError = ErrSyntax | ErrRange

definition isDigit :: "char \<Rightarrow> bool" where
  "isDigit c = (c \<in> set ''0123456789'')"

definition digitVal :: "char \<Rightarrow> nat" where
  "digitVal c = of_char c - 48"

definition isSign :: "string \<Rightarrow> bool" where
  "isSign s = (case s of [] \<Rightarrow> False | c # _ \<Rightarrow> c = CHR ''-'' \<or> c = CHR ''+'')"

definition isNeg :: "string \<Rightarrow> bool" where
  "isNeg s = (case s of [] \<Rightarrow> False | c # _ \<Rightarrow> c = CHR ''-'')"

text \<open>The fast path's loop \<^verbatim>\<open>n = n*10 + int(ch)\<close>; \<open>None\<close> is the syntax error.\<close>
fun fastDigits :: "nat \<Rightarrow> string \<Rightarrow> nat option" where
  "fastDigits n [] = Some n"
| "fastDigits n (ch # s) =
     (if isDigit ch then fastDigits (n * 10 + digitVal ch) s else None)"

text \<open>\<^verbatim>\<open>ParseUint\<close> in base 10 with 64 bits: \<open>cutoff = maxUint64 / 10 + 1\<close>.\<close>
fun ParseUint :: "nat \<Rightarrow> string \<Rightarrow> NumError + nat" where
  "ParseUint n [] = Inr n"
| "ParseUint n (c # s) =
     (if \<not> isDigit c then Inl ErrSyntax
      else if n \<ge> (2 ^ 64 - 1) div 10 + 1 then Inl ErrRange
      else if n * 10 + digitVal c > 2 ^ 64 - 1 then Inl ErrRange
      else ParseUint (n * 10 + digitVal c) s)"

definition ParseInt :: "string \<Rightarrow> NumError + int" where
  "ParseInt s0 =
     (if s0 = [] then Inl ErrSyntax
      else let s = (if isSign s0 then tl s0 else s0) in
        if s = [] then Inl ErrSyntax
        else case ParseUint 0 s of
          Inl e \<Rightarrow> Inl e
        | Inr un \<Rightarrow>
            if \<not> isNeg s0 \<and> un \<ge> 2 ^ 63 then Inl ErrRange
            else if isNeg s0 \<and> un > 2 ^ 63 then Inl ErrRange
            else Inr (if isNeg s0 then - int un else int un))"

definition Atoi :: "string \<Rightarrow> NumError + int" where
  "Atoi s0 =
     (if 0 < length s0 \<and> length s0 < 19 then
        (let s = (if isSign s0 then tl s0 else s0) in
         if length s < 1 then Inl ErrSyntax
         else case fastDigits 0 s of
           None \<Rightarrow> Inl ErrSyntax
         | Some n \<Rightarrow> Inr (if isNeg s0 then - int n else int n))
      else ParseInt s0)"

text \<open>
  \<^verbatim>\<open>phoneRegexp.MatchString\<close> for \<^verbatim>\<open>^\d{3}-\d{3}-\d{4}$\<close> (line 61). Without
  the multi-line flag, \<^verbatim>\<open>^\<close> and \<^verbatim>\<open>$\<close> match only at the two ends of the text, and
  \<^verbatim>\<open>\d\<close> is an ASCII digit: the text is twelve bytes, digits around two hyphens.
\<close>

definition phoneMatch :: "string \<Rightarrow> bool" where
  "phoneMatch s =
     (length s = 12 \<and>
      list_all isDigit (take 3 s) \<and> s ! 3 = CHR ''-'' \<and>
      list_all isDigit (take 3 (drop 4 s)) \<and> s ! 7 = CHR ''-'' \<and>
      list_all isDigit (drop 8 s))"

subsection \<open>The Header Map (lines 163, 175-181)\<close>

text \<open>
  The Go map \<^verbatim>\<open>map[string]int\<close> is an association list with distinct keys:
  \<open>map_of\<close> is the lookup, \<open>length\<close> is Go's \<^verbatim>\<open>len\<close> (the number of keys), and
  \<open>AList.update\<close> is the assignment \<^verbatim>\<open>header[val] = i\<close>, which overwrites the
  index of a name already present.
\<close>

type_synonym header_map = "(string \<times> nat) list"

text \<open>The loop \<^verbatim>\<open>for i, val := range record { header[val] = i }\<close>, from index \<open>i\<close>.\<close>
fun fillHeader :: "nat \<Rightarrow> string list \<Rightarrow> header_map \<Rightarrow> header_map" where
  "fillHeader i [] header = header"
| "fillHeader i (val # record) header = fillHeader (Suc i) record (AList.update val i header)"

definition makeHeader :: "string list \<Rightarrow> header_map" where
  "makeHeader record = fillHeader 0 record []"

subsection \<open>Row errors and their messages\<close>

text \<open>
  The \<^verbatim>\<open>error\<close> values handed to \<^verbatim>\<open>errFunc\<close>: one constructor per
  \<^verbatim>\<open>fmt.Errorf\<close> or \<^verbatim>\<open>errors.New\<close> call of the loop, with the call's arguments,
  and one for an error returned by \<^verbatim>\<open>r.Read()\<close>.
\<close>

datatype csv_error =
    FieldCountError nat   \<comment> \<open>\<^verbatim>\<open>ErrFieldCount\<close> for the record starting on this line of the file\<close>
  | SyntaxError string  \<comment> \<open>any other error of the reader, with its text\<close>

datatype row_error =
    ReadFailed csv_error       \<comment> \<open>line 171\<close>
  | FieldCount nat nat         \<comment> \<open>line 184\<close>
  | MissingField string        \<comment> \<open>lines 190, 209, 223, 233, 247\<close>
  | IdNot8 string              \<comment> \<open>line 194\<close>
  | IdInvalid string NumError  \<comment> \<open>line 199\<close>
  | IdNegative int             \<comment> \<open>line 203\<close>
  | FirstTooLong string        \<comment> \<open>line 213\<close>
  | FirstEmpty                 \<comment> \<open>line 218\<close>
  | MiddleTooLong string       \<comment> \<open>line 227\<close>
  | LastTooLong string         \<comment> \<open>line 237\<close>
  | LastEmpty                  \<comment> \<open>line 242\<close>
  | PhoneInvalid string        \<comment> \<open>line 252\<close>

subsection \<open>Validation of one data row (lines 183-254)\<close>

text \<open>
  A slice access \<^verbatim>\<open>record[id]\<close> with \<open>id\<close> beyond the slice panics in Go;
  \<open>at\<close> makes that a value. The index variable \<^verbatim>\<open>id\<close> of the source is \<open>idx\<close> here.
\<close>

definition at :: "string list \<Rightarrow> nat \<Rightarrow> string option" where
  "at record i = (if i < length record then Some (record ! i) else None)"

datatype row_result =
    Valid Record        \<comment> \<open>line 256 is reached with this record\<close>
  | Invalid row_error   \<comment> \<open>\<^verbatim>\<open>errFunc\<close> and \<^verbatim>\<open>continue\<close>\<close>
  | IndexPanic          \<comment> \<open>index out of range\<close>

definition validateRow :: "header_map \<Rightarrow> string list \<Rightarrow> row_result" where
  "validateRow header record =
    (if length record \<noteq> length header then
       Invalid (FieldCount (length record) (length header))
     else (case map_of header ID of
       None \<Rightarrow> Invalid (MissingField ID)
     | Some idx \<Rightarrow> (case at record idx of None \<Rightarrow> IndexPanic | Some idv \<Rightarrow>
       (if length idv \<noteq> 8 then Invalid (IdNot8 idv)
        else (case Atoi idv of
          Inl err \<Rightarrow> Invalid (IdInvalid idv err)
        | Inr n \<Rightarrow>
       (if n < 0 then Invalid (IdNegative n)
        else (case map_of header FName of
          None \<Rightarrow> Invalid (MissingField FName)
        | Some idx \<Rightarrow> (case at record idx of None \<Rightarrow> IndexPanic | Some firstv \<Rightarrow>
       (if length firstv > 15 then Invalid (FirstTooLong firstv)
        else if firstv = [] then Invalid FirstEmpty
        else (case map_of header MName of
          None \<Rightarrow> Invalid (MissingField MName)
        | Some idx \<Rightarrow> (case at record idx of None \<Rightarrow> IndexPanic | Some middlev \<Rightarrow>
       (if length middlev > 15 then Invalid (MiddleTooLong middlev)
        else (case map_of header LName of
          None \<Rightarrow> Invalid (MissingField LName)
        | Some idx \<Rightarrow> (case at record idx of None \<Rightarrow> IndexPanic | Some lastv \<Rightarrow>
       (if length lastv > 15 then Invalid (LastTooLong lastv)
        else if lastv = [] then Invalid LastEmpty
        else (case map_of header PhoneNum of
          None \<Rightarrow> Invalid (MissingField PhoneNum)
        | Some idx \<Rightarrow> (case at record idx of None \<Rightarrow> IndexPanic | Some phonev \<Rightarrow>
       (if \<not> phoneMatch phonev then Invalid (PhoneInvalid phonev)
        else Valid \<lparr>InternalID = n,
                    Name = \<lparr>First = firstv, Middle = middlev, Last = lastv\<rparr>,
                    Phone = phonev\<rparr>))))))))))))))))))"

subsection \<open>Formatting (\<^verbatim>\<open>fmt\<close>, \<^verbatim>\<open>strconv\<close>, \<^verbatim>\<open>encoding/json\<close>)\<close>

text \<open>
  Two functions of the standard library work on arbitrary bytes through Unicode
  tables and are parameters of the model: \<^verbatim>\<open>strconv.Quote\<close> (the verb
  \<^verbatim>\<open>%q\<close>) and the string encoder of \<^verbatim>\<open>encoding/json\<close>.
\<close>

record golib =
  Quote :: "string \<Rightarrow> string"
  jsonString :: "string \<Rightarrow> string"

text \<open>The verb \<^verbatim>\<open>%d\<close>.\<close>
fun decimal :: "nat \<Rightarrow> string" where
  "decimal n =
     (if n < 10 then [''0123456789'' ! n]
      else decimal (n div 10) @ [''0123456789'' ! (n mod 10)])"

declare decimal.simps [simp del]

definition Sprintf_d :: "int \<Rightarrow> string" where
  "Sprintf_d i = (if i < 0 then CHR ''-'' # decimal (nat (- i)) else decimal (nat i))"

text \<open>\<^verbatim>\<open>(*strconv.NumError).Error\<close>, printed by \<^verbatim>\<open>%v\<close> on line 199.\<close>
definition NumErrorText :: "golib \<Rightarrow> string \<Rightarrow> NumError \<Rightarrow> string" where
  "NumErrorText L num e =
     ''strconv.Atoi: parsing '' @ Quote L num @ '': '' @
     (case e of ErrSyntax \<Rightarrow> ''invalid syntax'' | ErrRange \<Rightarrow> ''value out of range'')"

text \<open>\<^verbatim>\<open>err.Error()\<close> for each error of the loop.\<close>
fun Error :: "golib \<Rightarrow> row_error \<Rightarrow> string" where
  "Error L (ReadFailed (FieldCountError l)) =
     ''record on line '' @ decimal l @ '': wrong number of fields''"
| "Error L (ReadFailed (SyntaxError t)) = t"
| "Error L (FieldCount n m) =
     ''err: number of fields: '' @ decimal n @ '' does not match header: '' @ decimal m"
| "Error L (MissingField f) = ''err: missing: '' @ Quote L f @ '' error field in header''"
| "Error L (IdNot8 v) = ''err: id field: '' @ Quote L v @ '' is not an 8 digit integer''"
| "Error L (IdInvalid v e) =
     ''err: id field: '' @ Quote L v @ '' either empty, or an invalid integer, '' @
     NumErrorText L v e"
| "Error L (IdNegative n) = ''err: id: '' @ Sprintf_d n @ '' should not be negative''"
| "Error L (FirstTooLong v) =
     ''err: first name field: '' @ Quote L v @ '' should not exceed 15 characters''"
| "Error L FirstEmpty = ''err: first name field should not be empty''"
| "Error L (MiddleTooLong v) =
     ''err: middle name field: '' @ Quote L v @ '' should not exceed 15 characters''"
| "Error L (LastTooLong v) =
     ''err: last name field: '' @ Quote L v @ '' should not exceed 15 characters''"
| "Error L LastEmpty = ''err: last name field should not be empty''"
| "Error L (PhoneInvalid v) =
     ''err: phone field: '' @ Quote L v @ '' either empty, or an invalid phone number''"

text \<open>\<^verbatim>\<open>strings.Join\<close>.\<close>
fun Join :: "string list \<Rightarrow> string \<Rightarrow> string" where
  "Join [] sep = []"
| "Join [x] sep = x"
| "Join (x # y # ys) sep = x @ sep @ Join (y # ys) sep"

definition jsonKey :: "string \<Rightarrow> string" where
  "jsonKey k = CHR 0x22 # k @ [CHR 0x22, CHR '':'', CHR '' '']"

text \<open>
  One \<open>Record\<close> as \<^verbatim>\<open>json.MarshalIndent(records, "", "  ")\<close> prints it inside the
  array: the struct tags of lines 39-53 give the keys, and \<^verbatim>\<open>omitempty\<close> drops
  the key \<^verbatim>\<open>middle\<close> of an empty middle name.
\<close>
definition marshalRecord :: "golib \<Rightarrow> Record \<Rightarrow> string" where
  "marshalRecord L r = Join
     ([''  {'',
       ''    '' @ jsonKey ''id'' @ Sprintf_d (InternalID r) @ '','',
       ''    '' @ jsonKey ''name'' @ ''{'',
       ''      '' @ jsonKey ''first'' @ jsonString L (First (Name r)) @ '',''] @
      (if Middle (Name r) = [] then []
       else [''      '' @ jsonKey ''middle'' @ jsonString L (Middle (Name r)) @ '','']) @
      [''      '' @ jsonKey ''last'' @ jsonString L (Last (Name r)),
       ''    },'',
       ''    '' @ jsonKey ''phone'' @ jsonString L (Phone r),
       ''  }''])
     [CHR 0x0A]"

text \<open>
  A Go slice is \<open>None\<close> when it is nil. \<^verbatim>\<open>encoding/json\<close> documents that a nil
  slice encodes as the JSON value \<^verbatim>\<open>null\<close>; a slice that is empty but not nil
  encodes as \<^verbatim>\<open>[]\<close>.
\<close>
definition MarshalIndent :: "golib \<Rightarrow> Record list option \<Rightarrow> string" where
  "MarshalIndent L rs =
     (case rs of
        None \<Rightarrow> ''null''
      | Some [] \<Rightarrow> ''[]''
      | Some (r # rest) \<Rightarrow>
          ''['' @ [CHR 0x0A] @ Join (map (marshalRecord L) (r # rest)) ('','' @ [CHR 0x0A]) @
          [CHR 0x0A] @ '']'')"

text \<open>The built-in \<^verbatim>\<open>append\<close> on a slice that may be nil.\<close>
definition appendSlice :: "'a list option \<Rightarrow> 'a \<Rightarrow> 'a list option" where
  "appendSlice xs x = (case xs of None \<Rightarrow> Some [x] | Some ys \<Rightarrow> Some (ys @ [x]))"

definition elems :: "'a list option \<Rightarrow> 'a list" where
  "elems xs = (case xs of None \<Rightarrow> [] | Some ys \<Rightarrow> ys)"

subsection \<open>The CSV reader (\<^verbatim>\<open>encoding/csv\<close>)\<close>

text \<open>
  The file is seen through its reader: the sequence of records that the successive
  calls of \<^verbatim>\<open>r.Read()\<close> find before \<^verbatim>\<open>io.EOF\<close>. For each record the reader's
  scanner gives the fields it parsed, the syntax error it met (a bare or unterminated
  quote), and the line of the file where the record starts. The reader skips empty
  lines, and a quoted field may span several lines, so a record is not always one
  line of the file.

  \<^verbatim>\<open>csv.NewReader\<close> leaves \<^verbatim>\<open>FieldsPerRecord\<close> at 0: \<^verbatim>\<open>Read\<close> sets it to the
  number of fields of the first record and then requires that number of every record,
  answering \<^verbatim>\<open>ErrFieldCount\<close> otherwise. \<open>readRecord\<close> is the end of the library's
  \<^verbatim>\<open>readRecord\<close>; it returns the record, the error, and the new \<^verbatim>\<open>FieldsPerRecord\<close>.

  A file is a finite list of records followed by \<^verbatim>\<open>io.EOF\<close>. A reader that never
  answers \<^verbatim>\<open>io.EOF\<close> (a read error of the operating system that repeats for ever)
  is outside the model.
\<close>

record scanned =
  dst :: "string list"
  syntaxErr :: "string option"
  recLine :: nat

definition readRecord :: "int \<Rightarrow> scanned \<Rightarrow> (string list \<times> csv_error option) \<times> int" where
  "readRecord FieldsPerRecord sc =
     (if FieldsPerRecord > 0 then
        (if int (length (dst sc)) \<noteq> FieldsPerRecord \<and> syntaxErr sc = None
         then ((dst sc, Some (FieldCountError (recLine sc))), FieldsPerRecord)
         else ((dst sc, map_option SyntaxError (syntaxErr sc)), FieldsPerRecord))
      else if FieldsPerRecord = 0 then
        ((dst sc, map_option SyntaxError (syntaxErr sc)), int (length (dst sc)))
      else ((dst sc, map_option SyntaxError (syntaxErr sc)), FieldsPerRecord))"

subsection \<open>The loop of \<^verbatim>\<open>processFile\<close> (lines 138-151, 163-257)\<close>

record session =
  header :: "header_map option"      \<comment> \<open>\<open>None\<close> is the nil map of line 163\<close>
  records :: "Record list option"    \<comment> \<open>\<open>None\<close> is the nil slice of line 138\<close>
  errs :: "string list list"

text \<open>Lines 138-145 and 163.\<close>
definition initial :: session where
  "initial = \<lparr>header = None, records = None, errs = [[''LINE_NUM'', ''ERROR_MSG'']]\<rparr>"

text \<open>Lines 148-151; the logging is not modelled.\<close>
definition errFunc :: "golib \<Rightarrow> nat \<Rightarrow> row_error \<Rightarrow> session \<Rightarrow> session" where
  "errFunc L line err s = s\<lparr>errs := errs s @ [[decimal line, Error L err]]\<rparr>"

text \<open>
  The body of the loop after \<^verbatim>\<open>r.Read()\<close> has answered something other than
  \<^verbatim>\<open>io.EOF\<close> (lines 170-256). \<open>None\<close> is a run-time panic.
\<close>
definition iteration ::
  "golib \<Rightarrow> nat \<Rightarrow> string list \<times> csv_error option \<Rightarrow> session \<Rightarrow> session option" where
  "iteration L line res s =
     (case snd res of
        Some e \<Rightarrow> Some (errFunc L line (ReadFailed e) s)
      | None \<Rightarrow>
          (case header s of
             None \<Rightarrow> Some (s\<lparr>header := Some (makeHeader (fst res))\<rparr>)
           | Some h \<Rightarrow>
               (case validateRow h (fst res) of
                  Invalid e \<Rightarrow> Some (errFunc L line e s)
                | Valid rec \<Rightarrow> Some (s\<lparr>records := appendSlice (records s) rec\<rparr>)
                | IndexPanic \<Rightarrow> None)))"

text \<open>
  The loop \<^verbatim>\<open>for line := 1; ; line++\<close>, from the line counter, the reader's
  \<^verbatim>\<open>FieldsPerRecord\<close> and the records still to be read. The empty list is
  \<^verbatim>\<open>io.EOF\<close>.
\<close>
fun readLoop :: "golib \<Rightarrow> nat \<Rightarrow> int \<Rightarrow> scanned list \<Rightarrow> session \<Rightarrow> session option" where
  "readLoop L line fpr [] s = Some s"
| "readLoop L line fpr (sc # rest) s =
     (case iteration L line (fst (readRecord fpr sc)) s of
        None \<Rightarrow> None
      | Some s' \<Rightarrow> readLoop L (Suc line) (snd (readRecord fpr sc)) rest s')"

subsection \<open>Paths (\<^verbatim>\<open>path/filepath\<close>, \<^verbatim>\<open>strings\<close>)\<close>

text \<open>
  \<^verbatim>\<open>filepath.Ext\<close> walks back from the end of the path to the last separator and
  returns the suffix that starts at the first dot it meets. \<open>scanExt\<close> takes the
  bytes still to visit (the path reversed) and the suffix already passed.
\<close>
fun scanExt :: "string \<Rightarrow> string \<Rightarrow> string" where
  "scanExt [] suffix = []"
| "scanExt (c # front) suffix =
     (if c = CHR ''/'' then []
      else if c = CHR ''.'' then c # suffix
      else scanExt front (c # suffix))"

definition Ext :: "string \<Rightarrow> string" where
  "Ext path = scanExt (rev path) []"

text \<open>
  \<^verbatim>\<open>strings.ToLower\<close> on the ASCII letters. Bytes from 0x80 on are left as they
  are here, where Go maps the runes they encode through the Unicode tables; no such
  rune has \<^verbatim>\<open>c\<close>, \<^verbatim>\<open>s\<close>, \<^verbatim>\<open>v\<close> or the dot as its lower case, so the test of
  line 155 is the same.
\<close>
definition lowerByte :: "char \<Rightarrow> char" where
  "lowerByte c =
     (case map_of (zip ''ABCDEFGHIJKLMNOPQRSTUVWXYZ'' ''abcdefghijklmnopqrstuvwxyz'') c of
        Some l \<Rightarrow> l
      | None \<Rightarrow> c)"

definition ToLower :: "string \<Rightarrow> string" where
  "ToLower s = map lowerByte s"

text \<open>\<^verbatim>\<open>strings.TrimSuffix\<close>.\<close>
definition TrimSuffix :: "string \<Rightarrow> string \<Rightarrow> string" where
  "TrimSuffix s suffix =
     (if length suffix \<le> length s \<and> drop (length s - length suffix) s = suffix
      then take (length s - length suffix) s
      else s)"

text \<open>\<^verbatim>\<open>filepath.Base\<close> on a Unix path: the last element, trailing slashes removed.\<close>
definition Base :: "string \<Rightarrow> string" where
  "Base path =
     (if path = [] then ''.''
      else let stripped = rev (dropWhile (\<lambda>c. c = CHR ''/'') (rev path));
               element = rev (takeWhile (\<lambda>c. c \<noteq> CHR ''/'') (rev stripped))
           in if element = [] then ''/'' else element)"

subsection \<open>\<^verbatim>\<open>processFile\<close> (lines 137-299)\<close>

text \<open>
  What the operating system answers to the calls of one run: \<^verbatim>\<open>os.Open\<close> fails or
  gives the file (seen through its reader); \<^verbatim>\<open>ioutil.WriteFile\<close>, \<^verbatim>\<open>os.OpenFile\<close>,
  \<^verbatim>\<open>w.WriteAll\<close> and \<^verbatim>\<open>os.Remove\<close> fail with an error or succeed.
\<close>

record world =
  Open :: "string + scanned list"
  WriteFile :: "string option"
  OpenFile :: "string option"
  WriteAll :: "string option"
  Remove :: "string option"

text \<open>
  How the call ends: \<^verbatim>\<open>return nil\<close> or \<^verbatim>\<open>return err\<close>; the process exits in
  \<^verbatim>\<open>logrus.Fatal\<close> (which logs and calls \<^verbatim>\<open>os.Exit(1)\<close>); or a run-time panic.
\<close>

datatype ending = Return "string option" | Fatal string | Panic

text \<open>
  What the call has done when it ends: the JSON file written in the output directory
  (name and bytes), the rows written to the error report in the error directory
  (name and rows), whether the source file was removed, and how the call ended. A
  write that failed counts as no file.
\<close>

record run =
  json :: "(string \<times> string) option"
  report :: "(string \<times> string list list) option"
  removed :: bool
  ending :: ending

definition nothing :: run where
  "nothing = \<lparr>json = None, report = None, removed = False, ending = Return None\<rparr>"

text \<open>Lines 292-298, after the outputs \<open>r\<close> have been written.\<close>
definition removeSource :: "world \<Rightarrow> run \<Rightarrow> run" where
  "removeSource w r =
     (case Remove w of
        Some err \<Rightarrow> r\<lparr>ending := Return (Some err)\<rparr>
      | None \<Rightarrow> r\<lparr>removed := True, ending := Return None\<rparr>)"

text \<open>Lines 275-291, after the JSON file of \<open>r\<close> has been written.\<close>
definition writeReport :: "world \<Rightarrow> string \<Rightarrow> session \<Rightarrow> run \<Rightarrow> run" where
  "writeReport w path s r =
     (if length (errs s) > 1 then
        (case OpenFile w of
           Some err \<Rightarrow> r\<lparr>ending := Fatal err\<rparr>
         | None \<Rightarrow>
             (case WriteAll w of
                Some err \<Rightarrow> r\<lparr>ending := Fatal err\<rparr>
              | None \<Rightarrow> removeSource w (r\<lparr>report := Some (Base path, errs s)\<rparr>)))
      else removeSource w r)"

text \<open>
  Lines 261-274. \<^verbatim>\<open>json.MarshalIndent\<close> has no error on a slice of \<open>Record\<close>
  (integers and strings only), so line 264 is never reached.
\<close>
definition writeOutputs :: "golib \<Rightarrow> world \<Rightarrow> string \<Rightarrow> session \<Rightarrow> run" where
  "writeOutputs L w path s =
     (let data = MarshalIndent L (records s) in
      case WriteFile w of
        Some err \<Rightarrow> nothing\<lparr>ending := Return (Some err)\<rparr>
      | None \<Rightarrow>
          writeReport w path s
            (nothing\<lparr>json := Some (Join [TrimSuffix (Base path) (Ext path), ''json''] ''.'', data)\<rparr>))"

definition processFile :: "golib \<Rightarrow> world \<Rightarrow> string \<Rightarrow> run" where
  "processFile L w path =
     (if ToLower (Ext path) = ''.csv'' then
        (case Open w of
           Inl err \<Rightarrow> nothing\<lparr>ending := Return (Some err)\<rparr>
         | Inr file \<Rightarrow>
             (case readLoop L 1 0 file initial of
                None \<Rightarrow> nothing\<lparr>ending := Panic\<rparr>
              | Some s \<Rightarrow> writeOutputs L w path s))
      else nothing)"

subsection \<open>The checks of the loop body, one by one\<close>

text \<open>
  The chain of lines 183-254 taken apart: each test of the source, in the order of the
  source, as a function of the Header Map and the row that answers the error handed
  to \<^verbatim>\<open>errFunc\<close>, or \<open>None\<close> when the test lets the row go on. Everything here is
  read off the code, its \<^verbatim>\<open>len\<close> on the map and on strings (bytes) included.
\<close>

type_synonym rule = "header_map \<Rightarrow> string list \<Rightarrow> row_error option"

text \<open>\<^verbatim>\<open>record[header[name]]\<close> for a name that the Header Map holds.\<close>
definition cell :: "header_map \<Rightarrow> string list \<Rightarrow> string \<Rightarrow> string" where
  "cell h r name = r ! the (map_of h name)"

text \<open>Line 183: \<^verbatim>\<open>len(record) != len(header)\<close>, the number of keys of the map.\<close>
definition check_fieldCount :: rule where
  "check_fieldCount h r =
     (if length r = length h then None else Some (FieldCount (length r) (length h)))"

text \<open>Lines 188-189, 207-208, 221-222, 231-232 and 245-246: \<^verbatim>\<open>!exists\<close>.\<close>
definition check_present :: "string \<Rightarrow> rule" where
  "check_present name h r = (if map_of h name = None then Some (MissingField name) else None)"

text \<open>Line 193: \<^verbatim>\<open>len(record[id]) != 8\<close>, in bytes.\<close>
definition check_idLength :: rule where
  "check_idLength h r =
     (if length (cell h r ID) = 8 then None else Some (IdNot8 (cell h r ID)))"

text \<open>Lines 197-198: \<^verbatim>\<open>strconv.Atoi\<close> answers an error.\<close>
definition check_idParse :: rule where
  "check_idParse h r =
     (case Atoi (cell h r ID) of
        Inl e \<Rightarrow> Some (IdInvalid (cell h r ID) e)
      | Inr n \<Rightarrow> None)"

text \<open>Line 202: \<^verbatim>\<open>rec.InternalID < 0\<close>.\<close>
definition check_idSign :: rule where
  "check_idSign h r =
     (case Atoi (cell h r ID) of
        Inl e \<Rightarrow> None
      | Inr n \<Rightarrow> if 0 \<le> n then None else Some (IdNegative n))"

text \<open>Lines 212, 226 and 236: \<^verbatim>\<open>len(record[id]) > 15\<close>, in bytes.\<close>
definition check_atMost15 :: "string \<Rightarrow> (string \<Rightarrow> row_error) \<Rightarrow> rule" where
  "check_atMost15 name err h r =
     (if length (cell h r name) \<le> 15 then None else Some (err (cell h r name)))"

text \<open>Lines 217 and 241: the name is the empty string.\<close>
definition check_nonEmpty :: "string \<Rightarrow> row_error \<Rightarrow> rule" where
  "check_nonEmpty name err h r = (if cell h r name = [] then Some err else None)"

text \<open>Line 251: \<^verbatim>\<open>!phoneRegexp.MatchString(rec.Phone)\<close>.\<close>
definition check_phoneFormat :: rule where
  "check_phoneFormat h r =
     (if phoneMatch (cell h r PhoneNum) then None
      else Some (PhoneInvalid (cell h r PhoneNum)))"

text \<open>The tests in the order of the source.\<close>
definition checks :: "rule list" where
  "checks =
     [check_fieldCount,
      check_present ID, check_idLength, check_idParse, check_idSign,
      check_present FName, check_atMost15 FName FirstTooLong, check_nonEmpty FName FirstEmpty,
      check_present MName, check_atMost15 MName MiddleTooLong,
      check_present LName, check_atMost15 LName LastTooLong, check_nonEmpty LName LastEmpty,
      check_present PhoneNum, check_phoneFormat]"

text \<open>The error of the first rule of a list that the row fails.\<close>
fun firstFailure :: "rule list \<Rightarrow> header_map \<Rightarrow> string list \<Rightarrow> row_error option" where
  "firstFailure [] h r = None"
| "firstFailure (rule # rules) h r =
     (case rule h r of Some e \<Rightarrow> Some e | None \<Rightarrow> firstFailure rules h r)"

text \<open>The value of \<^verbatim>\<open>rec\<close> on line 256 (assignments of lines 197, 216, 230, 240, 250).\<close>
definition builtRecord :: "header_map \<Rightarrow> string list \<Rightarrow> Record" where
  "builtRecord h r =
     \<lparr>InternalID = (case Atoi (cell h r ID) of Inl e \<Rightarrow> 0 | Inr n \<Rightarrow> n),
      Name = \<lparr>First = cell h r FName,
              Middle = cell h r MName,
              Last = cell h r LName\<rparr>,
      Phone = cell h r PhoneNum\<rparr>"

text \<open>
  What one answer of \<^verbatim>\<open>r.Read()\<close> does to the state of the loop: it is reported
  through \<^verbatim>\<open>errFunc\<close> (lines 171, 184-252), it becomes the Header Map (lines
  175-181), or its Record is appended (line 256).
\<close>

datatype verdict = BecomesHeader | Rejected row_error | Accepted Record

definition lineVerdict :: "header_map option \<Rightarrow> string list \<times> csv_error option \<Rightarrow> verdict" where
  "lineVerdict hm res =
     (case snd res of
        Some e \<Rightarrow> Rejected (ReadFailed e)
      | None \<Rightarrow>
          (case hm of
             None \<Rightarrow> BecomesHeader
           | Some h \<Rightarrow>
               (case firstFailure checks h (fst res) of
                  Some e \<Rightarrow> Rejected e
                | None \<Rightarrow> Accepted (builtRecord h (fst res)))))"

text \<open>The Header Map after the answer.\<close>
definition nextHeader ::
  "header_map option \<Rightarrow> string list \<times> csv_error option \<Rightarrow> header_map option" where
  "nextHeader hm res =
     (if hm = None \<and> snd res = None then Some (makeHeader (fst res)) else hm)"

text \<open>One verdict for each answer of the reader, in their order.\<close>
fun verdicts ::
  "header_map option \<Rightarrow> (string list \<times> csv_error option) list \<Rightarrow> verdict list" where
  "verdicts hm [] = []"
| "verdicts hm (res # rest) = lineVerdict hm res # verdicts (nextHeader hm res) rest"

text \<open>
  The rows that \<^verbatim>\<open>errFunc\<close> appends for a list of verdicts when the counter
  \<^verbatim>\<open>line\<close> of the loop starts at \<open>n\<close>: the counter goes up by one with every
  answer of the reader, so the row of a rejected answer holds the position of the
  answer, not the line of the file on which its record stands.
\<close>
definition counterRow :: "golib \<Rightarrow> nat \<times> verdict \<Rightarrow> string list list" where
  "counterRow L nv =
     (case snd nv of Rejected e \<Rightarrow> [[decimal (fst nv), Error L e]] | _ \<Rightarrow> [])"

definition counterRows :: "golib \<Rightarrow> nat \<Rightarrow> verdict list \<Rightarrow> string list list" where
  "counterRows L n vs = concat (map (counterRow L) (zip [n ..< n + length vs] vs))"

text \<open>The Records of the accepted answers.\<close>
fun accepted :: "verdict list \<Rightarrow> Record list" where
  "accepted [] = []"
| "accepted (Accepted rec # vs) = rec # accepted vs"
| "accepted (v # vs) = accepted vs"

subsection \<open>The answers of the reader\<close>

text \<open>
  The answers of the successive calls of \<^verbatim>\<open>r.Read()\<close> on a file, from the
  reader's \<^verbatim>\<open>FieldsPerRecord\<close>.
\<close>
fun reads :: "int \<Rightarrow> scanned list \<Rightarrow> (string list \<times> csv_error option) list" where
  "reads fpr [] = []"
| "reads fpr (sc # rest) = fst (readRecord fpr sc) # reads (snd (readRecord fpr sc)) rest"

text \<open>
  The header line is the first line that the reader parses. The lines read after it,
  and the lines read before it (none of which parsed).
\<close>
definition unparsed :: "string list \<times> csv_error option \<Rightarrow> bool" where
  "unparsed res = (snd res \<noteq> None)"

definition linesAfterHeader :: "(string list \<times> csv_error option) list \<Rightarrow> nat" where
  "linesAfterHeader rs = length (drop 1 (dropWhile unparsed rs))"

definition linesBeforeHeader :: "(string list \<times> csv_error option) list \<Rightarrow> nat" where
  "linesBeforeHeader rs = length (takeWhile unparsed rs)"

subsection \<open>The Row Validator of the specification\<close>

text \<open>
  The definitions of this subsection follow the words of section 4.2 of the
  specification, not the code: fifteen rules applied in a fixed order, the first
  failure winning. A rule answers the error of its failure, or \<open>None\<close> when the row
  passes it. Where the specification says characters, the count is of characters, and
  the field count of the header is that of the header row.
\<close>

text \<open>
  The number of characters of a text in UTF-8: its bytes other than the continuation
  bytes \<^verbatim>\<open>10xxxxxx\<close>.
\<close>
definition continuation :: "char \<Rightarrow> bool" where
  "continuation c = (digit7 c \<and> \<not> digit6 c)"

definition chars :: "string \<Rightarrow> nat" where
  "chars s = length (filter (\<lambda>c. \<not> continuation c) s)"

text \<open>
  Rule 1: the field count of the row equals the field count of the header, the row
  \<open>hrow\<close> from which the Header Map was built.
\<close>
definition spec_fieldCount :: "string list \<Rightarrow> rule" where
  "spec_fieldCount hrow h r =
     (if length r = length hrow then None else Some (FieldCount (length r) (length hrow)))"

text \<open>Rules 2, 6, 9, 11 and 14: the column is present in the Header Map.\<close>
definition spec_present :: "string \<Rightarrow> rule" where
  "spec_present name h r = (if map_of h name = None then Some (MissingField name) else None)"

text \<open>Rule 3: the raw internal ID has exactly 8 characters.\<close>
definition spec_idLength :: rule where
  "spec_idLength h r =
     (if chars (cell h r ID) = 8 then None else Some (IdNot8 (cell h r ID)))"

text \<open>Rule 4: the internal ID parses as a base-10 integer.\<close>
definition spec_idParse :: rule where
  "spec_idParse h r =
     (case Atoi (cell h r ID) of
        Inl e \<Rightarrow> Some (IdInvalid (cell h r ID) e)
      | Inr n \<Rightarrow> None)"

text \<open>Rule 5: the parsed internal ID is not negative.\<close>
definition spec_idSign :: rule where
  "spec_idSign h r =
     (case Atoi (cell h r ID) of
        Inl e \<Rightarrow> None
      | Inr n \<Rightarrow> if 0 \<le> n then None else Some (IdNegative n))"

text \<open>Rules 7, 10 and 12: the name has at most 15 characters.\<close>
definition spec_atMost15 :: "string \<Rightarrow> (string \<Rightarrow> row_error) \<Rightarrow> rule" where
  "spec_atMost15 name err h r =
     (if chars (cell h r name) \<le> 15 then None else Some (err (cell h r name)))"

text \<open>Rules 8 and 13: the name is not empty.\<close>
definition spec_nonEmpty :: "string \<Rightarrow> row_error \<Rightarrow> rule" where
  "spec_nonEmpty name err h r = (if cell h r name = [] then Some err else None)"

text \<open>Rule 15: the phone number matches the pattern.\<close>
definition spec_phoneFormat :: rule where
  "spec_phoneFormat h r =
     (if phoneMatch (cell h r PhoneNum) then None
      else Some (PhoneInvalid (cell h r PhoneNum)))"

text \<open>The fifteen rules in the order of section 4.2, for a file with the header row \<open>hrow\<close>.\<close>
definition spec_rules :: "string list \<Rightarrow> rule list" where
  "spec_rules hrow =
     [spec_fieldCount hrow,
      spec_present ID, spec_idLength, spec_idParse, spec_idSign,
      spec_present FName, spec_atMost15 FName FirstTooLong, spec_nonEmpty FName FirstEmpty,
      spec_present MName, spec_atMost15 MName MiddleTooLong,
      spec_present LName, spec_atMost15 LName LastTooLong, spec_nonEmpty LName LastEmpty,
      spec_present PhoneNum, spec_phoneFormat]"

text \<open>A text of ASCII characters only: one byte for each character.\<close>
definition ascii :: "string \<Rightarrow> bool" where
  "ascii s = list_all (\<lambda>c. \<not> digit7 c) s"

subsection \<open>Invariants and counts\<close>

text \<open>Every index of the Header Map is inside the row.\<close>
definition inRange :: "header_map \<Rightarrow> string list \<Rightarrow> bool" where
  "inRange h r = list_all (\<lambda>(name, i). i < length r) h"

text \<open>
  What holds between the reader and the Header Map at the top of the loop:
  \<^verbatim>\<open>FieldsPerRecord\<close> is not negative, and every index of the Header Map is below it.
\<close>
definition readerInv :: "int \<Rightarrow> header_map option \<Rightarrow> bool" where
  "readerInv fpr hm =
     (0 \<le> fpr \<and> (case hm of None \<Rightarrow> True | Some h \<Rightarrow> list_all (\<lambda>(name, i). int i < fpr) h))"

text \<open>
  The number of Records plus the number of error entries (the first row of \<open>errs\<close>
  is the heading of the report, not an entry) at the end of a loop.
\<close>
definition entries :: "session option \<Rightarrow> nat" where
  "entries final =
     (case final of
        None \<Rightarrow> 0
      | Some s \<Rightarrow> length (elems (records s)) + (length (errs s) - 1))"

subsection \<open>Concrete files\<close>

text \<open>
  An instance of the two library parameters for concrete runs: what \<^verbatim>\<open>%q\<close> and the
  JSON string encoder print for printable ASCII text without quotes, backslashes or
  the characters \<^verbatim>\<open><\<close>, \<^verbatim>\<open>>\<close>, \<^verbatim>\<open>&\<close>.
\<close>
definition plainLib :: golib where
  "plainLib = \<lparr>Quote = (\<lambda>s. CHR 0x22 # s @ [CHR 0x22]),
               jsonString = (\<lambda>s. CHR 0x22 # s @ [CHR 0x22])\<rparr>"

text \<open>A record of the file that the reader scans without a syntax error.\<close>
definition csvLine :: "nat \<Rightarrow> string list \<Rightarrow> scanned" where
  "csvLine l fs = \<lparr>dst = fs, syntaxErr = None, recLine = l\<rparr>"

definition headerLine :: scanned where
  "headerLine = csvLine 1 [ID, FName, MName, LName, PhoneNum]"

definition janeRow :: "string list" where
  "janeRow = [''12345678'', ''Jane'', ''Q'', ''Doe'', ''555-123-4567'']"

definition shortIdRow :: "string list" where
  "shortIdRow = [''1234567'', ''Jane'', ''Q'', ''Doe'', ''555-123-4567'']"

text \<open>A header row that names the phone column twice.\<close>
definition twoPhonesHeader :: scanned where
  "twoPhonesHeader = csvLine 1 [ID, FName, MName, LName, PhoneNum, PhoneNum]"

text \<open>A line with a bare quote in its first field: no field is parsed.\<close>
definition garbledLine :: "nat \<Rightarrow> scanned" where
  "garbledLine l = \<lparr>dst = [], syntaxErr = Some ''bare quote in non-quoted-field'', recLine = l\<rparr>"

text \<open>The state of the loop once \<open>headerLine\<close> has been read.\<close>
definition afterHeader :: session where
  "afterHeader = initial\<lparr>header := Some (makeHeader (dst headerLine))\<rparr>"

text \<open>The Record of \<open>janeRow\<close>.\<close>
definition janeRecord :: Record where
  "janeRecord = \<lparr>InternalID = 12345678,
                  Name = \<lparr>First = ''Jane'', Middle = ''Q'', Last = ''Doe''\<rparr>,
                  Phone = ''555-123-4567''\<rparr>"

text \<open>The row of Jane with another internal ID.\<close>
definition withId :: "string \<Rightarrow> string list" where
  "withId v = [v, ''Jane'', ''Q'', ''Doe'', ''555-123-4567'']"

text \<open>A row with the six fields of \<open>twoPhonesHeader\<close>.\<close>
definition twoPhonesRow :: "string list" where
  "twoPhonesRow = janeRow @ [''555-123-4567'']"

text \<open>A first name of fifteen characters and thirty bytes (fifteen times e with an acute accent).\<close>
definition accentedName :: string where
  "accentedName = concat (replicate 15 [CHR 0xC3, CHR 0xA9])"

text \<open>A row of two fields.\<close>
definition shortRow :: "string list" where
  "shortRow = [''1234567'', ''Jane'']"

text \<open>Every call of the operating system succeeds on the file \<open>file\<close>.\<close>
definition allFine :: "scanned list \<Rightarrow> world" where
  "allFine file =
     \<lparr>Open = Inr file, WriteFile = None, OpenFile = None, WriteAll = None, Remove = None\<rparr>"

section \<open>Properties\<close>

lemmas column_defs = ID_def FName_def MName_def LName_def PhoneNum_def

lemmas atoi_defs = Atoi_def isSign_def isNeg_def isDigit_def digitVal_def

lemmas run_defs =
  processFile_def writeOutputs_def writeReport_def removeSource_def nothing_def
  ToLower_def lowerByte_def Ext_def Base_def TrimSuffix_def

lemmas loop_defs =
  iteration_def readRecord_def errFunc_def initial_def appendSlice_def makeHeader_def

lemmas row_defs = validateRow_def column_defs at_def atoi_defs phoneMatch_def

lemmas example_defs =
  allFine_def headerLine_def csvLine_def janeRow_def shortIdRow_def twoPhonesHeader_def
  garbledLine_def

lemmas check_defs =
  checks_def check_fieldCount_def check_present_def check_idLength_def check_idParse_def
  check_idSign_def check_atMost15_def check_nonEmpty_def check_phoneFormat_def

lemmas spec_defs =
  spec_rules_def spec_fieldCount_def spec_present_def spec_idLength_def spec_idParse_def
  spec_idSign_def spec_atMost15_def spec_nonEmpty_def spec_phoneFormat_def
  chars_def continuation_def

subsection \<open>The indices of the Header Map\<close>

lemma list_all_update:
  "list_all P h \<Longrightarrow> P (k, v) \<Longrightarrow> list_all P (AList.update k v h)"
  by (induction h) auto

lemma fillHeader_below:
  "list_all (\<lambda>(name, j). j < n) h \<Longrightarrow> i + length rec \<le> n \<Longrightarrow>
   list_all (\<lambda>(name, j). j < n) (fillHeader i rec h)"
proof (induction rec arbitrary: i h)
  case Nil
  then show ?case by simp
next
  case (Cons val rec)
  from Cons.prems have "list_all (\<lambda>(name, j). j < n) (AList.update val i h)"
    by (intro list_all_update) auto
  moreover from Cons.prems have "Suc i + length rec \<le> n" by simp
  ultimately show ?case using Cons.IH by simp
qed

lemma makeHeader_below: "list_all (\<lambda>(name, j). j < length rec) (makeHeader rec)"
  unfolding makeHeader_def by (rule fillHeader_below) auto

lemma inRange_lookup:
  assumes "inRange h r" "map_of h name = Some i"
  shows "at r i = Some (cell h r name)"
proof -
  from assms(2) have "(name, i) \<in> set h" by (rule map_of_SomeD)
  with assms(1) have "i < length r" by (auto simp: inRange_def list_all_iff)
  with assms(2) show ?thesis by (simp add: at_def cell_def)
qed

subsection \<open>The validation chain is the list of its checks\<close>

lemma validateRow_checks:
  assumes "inRange h r"
  shows "validateRow h r =
           (case firstFailure checks h r of
              Some e \<Rightarrow> Invalid e
            | None \<Rightarrow> Valid (builtRecord h r))"
  using inRange_lookup [OF assms]
  by (simp add: validateRow_def check_defs builtRecord_def split: option.split sum.split)

subsection \<open>The rows of the error report\<close>

lemma counterRows_Nil [simp]: "counterRows L n [] = []"
  by (simp add: counterRows_def)

lemma counterRows_step:
  "counterRows L n (v # vs) = counterRow L (n, v) @ counterRows L (Suc n) vs"
proof -
  have "[n ..< n + length (v # vs)] = n # [Suc n ..< Suc n + length vs]"
    using upt_conv_Cons [of n "n + length (v # vs)"] by (simp del: upt_Suc)
  then show ?thesis by (simp add: counterRows_def del: upt_Suc)
qed

lemma counterRows_Cons:
  "counterRows L n (v # vs) = counterRows L n [v] @ counterRows L (Suc n) vs"
  by (simp add: counterRows_step)

lemma counterRows_single [simp]:
  "counterRows L n [Rejected e] = [[decimal n, Error L e]]"
  "counterRows L n [BecomesHeader] = []"
  "counterRows L n [Accepted rec] = []"
  by (simp_all add: counterRows_step counterRow_def)

lemma accepted_Cons: "accepted (v # vs) = accepted [v] @ accepted vs"
  by (cases v) simp_all

lemma elems_foldl_appendSlice: "elems (foldl appendSlice rs xs) = elems rs @ xs"
  by (induction xs arbitrary: rs) (auto simp: elems_def appendSlice_def split: option.splits)

lemma foldl_appendSlice_None: "foldl appendSlice rs xs = None \<longleftrightarrow> rs = None \<and> xs = []"
  by (induction xs arbitrary: rs) (auto simp: appendSlice_def split: option.splits)

subsection \<open>One iteration of the loop\<close>


lemma readerInv_zero: "readerInv 0 (Some h) \<Longrightarrow> h = []"
  by (cases h) (auto simp: readerInv_def)

lemma readerInv_inRange:
  assumes "readerInv fpr (Some h)" "fst (readRecord fpr sc) = (rec, None)"
  shows "inRange h rec"
proof (cases "fpr = 0")
  case True
  with assms(1) have "h = []"
    using readerInv_zero by simp
  then show ?thesis by (simp add: inRange_def)
next
  case False
  with assms(1) have pos: "0 < fpr" by (simp add: readerInv_def)
  with assms(2) have "int (length rec) = fpr"
    by (auto simp: readRecord_def split: if_splits)
  with assms(1) show ?thesis
    by (auto simp: readerInv_def inRange_def list_all_iff)
qed

lemma readRecord_fpr:
  "0 \<le> fpr \<Longrightarrow>
   snd (readRecord fpr sc) = (if fpr = 0 then int (length (dst sc)) else fpr)"
  by (simp add: readRecord_def)

lemma readRecord_parsed:
  assumes "snd (fst (readRecord fpr sc)) = None" "0 \<le> fpr"
  shows "fst (fst (readRecord fpr sc)) = dst sc"
    and "snd (readRecord fpr sc) = int (length (dst sc))"
  using assms by (auto simp: readRecord_def split: if_splits)

lemma readerInv_step:
  assumes "readerInv fpr hm"
  shows "readerInv (snd (readRecord fpr sc)) (nextHeader hm (fst (readRecord fpr sc)))"
proof -
  from assms have nonneg: "0 \<le> fpr" by (simp add: readerInv_def)
  let ?fpr' = "snd (readRecord fpr sc)"
  have nonneg': "0 \<le> ?fpr'"
    using nonneg by (simp add: readRecord_fpr)
  show ?thesis
  proof (cases hm)
    case None
    show ?thesis
    proof (cases "snd (fst (readRecord fpr sc))")
      case parsed: None
      have "list_all (\<lambda>(name, j). int j < int (length (dst sc))) (makeHeader (dst sc))"
        using makeHeader_below [of "dst sc"] by (simp add: list_all_iff case_prod_unfold)
      with None parsed nonneg' readRecord_parsed [OF parsed nonneg] show ?thesis
        by (simp add: readerInv_def nextHeader_def)
    next
      case (Some e)
      with None nonneg' show ?thesis
        by (simp add: readerInv_def nextHeader_def)
    qed
  next
    case (Some h)
    show ?thesis
    proof (cases "fpr = 0")
      case True
      with assms Some have "h = []" using readerInv_zero by simp
      with Some nonneg' show ?thesis
        by (simp add: readerInv_def nextHeader_def)
    next
      case False
      with nonneg have "?fpr' = fpr" by (simp add: readRecord_fpr)
      with assms Some show ?thesis
        by (simp add: nextHeader_def)
    qed
  qed
qed

lemma iteration_verdict:
  assumes "readerInv fpr (header s)"
  shows "iteration L line (fst (readRecord fpr sc)) s =
           Some (case lineVerdict (header s) (fst (readRecord fpr sc)) of
                   BecomesHeader \<Rightarrow> s\<lparr>header := Some (makeHeader (fst (fst (readRecord fpr sc))))\<rparr>
                 | Rejected e \<Rightarrow> s\<lparr>errs := errs s @ [[decimal line, Error L e]]\<rparr>
                 | Accepted rec \<Rightarrow> s\<lparr>records := appendSlice (records s) rec\<rparr>)"
proof (cases "snd (fst (readRecord fpr sc))")
  case (Some e)
  then show ?thesis by (simp add: iteration_def lineVerdict_def errFunc_def)
next
  case None
  show ?thesis
  proof (cases "header s")
    case hNone: None
    with None show ?thesis by (simp add: iteration_def lineVerdict_def)
  next
    case (Some h)
    from None have "fst (readRecord fpr sc) = (fst (fst (readRecord fpr sc)), None)"
      by (metis prod.collapse)
    with assms Some have "inRange h (fst (fst (readRecord fpr sc)))"
      using readerInv_inRange by metis
    from validateRow_checks [OF this] None Some show ?thesis
      by (simp add: iteration_def lineVerdict_def errFunc_def split: option.split)
  qed
qed

subsection \<open>The loop\<close>


lemma iteration_effect:
  assumes "readerInv fpr (header s)"
  shows "\<exists>s1. iteration L line (fst (readRecord fpr sc)) s = Some s1 \<and>
           header s1 = nextHeader (header s) (fst (readRecord fpr sc)) \<and>
           errs s1 = errs s @ counterRows L line [lineVerdict (header s) (fst (readRecord fpr sc))] \<and>
           records s1 =
             foldl appendSlice (records s) (accepted [lineVerdict (header s) (fst (readRecord fpr sc))])"
proof (cases "lineVerdict (header s) (fst (readRecord fpr sc))")
  case BecomesHeader
  then have "header s = None \<and> snd (fst (readRecord fpr sc)) = None"
    by (auto simp: lineVerdict_def split: option.splits)
  with BecomesHeader iteration_verdict [OF assms, of L line sc] show ?thesis
    by (simp add: nextHeader_def)
next
  case (Rejected e)
  then have "header s \<noteq> None \<or> snd (fst (readRecord fpr sc)) \<noteq> None"
    by (auto simp: lineVerdict_def split: option.splits)
  with Rejected iteration_verdict [OF assms, of L line sc] show ?thesis
    by (auto simp: nextHeader_def)
next
  case (Accepted rec)
  then have "header s \<noteq> None \<or> snd (fst (readRecord fpr sc)) \<noteq> None"
    by (auto simp: lineVerdict_def split: option.splits)
  with Accepted iteration_verdict [OF assms, of L line sc] show ?thesis
    by (auto simp: nextHeader_def)
qed

lemma readLoop_verdicts:
  assumes "readerInv fpr (header s)"
  shows "\<exists>s'. readLoop L line fpr input s = Some s' \<and>
           errs s' = errs s @ counterRows L line (verdicts (header s) (reads fpr input)) \<and>
           records s' =
             foldl appendSlice (records s) (accepted (verdicts (header s) (reads fpr input)))"
  using assms
proof (induction input arbitrary: line fpr s)
  case Nil
  then show ?case by simp
next
  case (Cons sc input)
  let ?res = "fst (readRecord fpr sc)"
  let ?fpr' = "snd (readRecord fpr sc)"
  from iteration_effect [OF Cons.prems, of L line sc]
  obtain s1 where it: "iteration L line ?res s = Some s1"
    and h1: "header s1 = nextHeader (header s) ?res"
    and e1: "errs s1 = errs s @ counterRows L line [lineVerdict (header s) ?res]"
    and r1: "records s1 = foldl appendSlice (records s) (accepted [lineVerdict (header s) ?res])"
    by blast
  from readerInv_step [OF Cons.prems, of sc] h1 have "readerInv ?fpr' (header s1)" by simp
  from Cons.IH [OF this, of "Suc line"]
  obtain s' where loop: "readLoop L (Suc line) ?fpr' input s1 = Some s'"
    and e': "errs s' = errs s1 @ counterRows L (Suc line) (verdicts (header s1) (reads ?fpr' input))"
    and r': "records s' = foldl appendSlice (records s1) (accepted (verdicts (header s1) (reads ?fpr' input)))"
    by blast
  have vs: "verdicts (header s) (reads fpr (sc # input)) =
      lineVerdict (header s) ?res # verdicts (header s1) (reads ?fpr' input)"
    using h1 by simp
  have "readLoop L line fpr (sc # input) s = Some s'"
    using it loop by simp
  moreover have "errs s' = errs s @ counterRows L line (verdicts (header s) (reads fpr (sc # input)))"
    unfolding vs e' e1 by (subst (2) counterRows_Cons) simp
  moreover have "records s' =
      foldl appendSlice (records s) (accepted (verdicts (header s) (reads fpr (sc # input))))"
    unfolding vs r' r1 by (subst (2) accepted_Cons) simp
  ultimately show ?case by blast
qed

lemma readerInv_initial: "readerInv 0 (header initial)"
  by (simp add: readerInv_def initial_def)

lemma readLoop_initial:
  "\<exists>s. readLoop L 1 0 input initial = Some s \<and>
        errs s = [''LINE_NUM'', ''ERROR_MSG''] #
                 counterRows L 1 (verdicts None (reads 0 input)) \<and>
        records s = foldl appendSlice None (accepted (verdicts None (reads 0 input)))"
  using readLoop_verdicts [OF readerInv_initial, of L 1 input] by (simp add: initial_def)

subsection \<open>No access outside a row\<close>

lemma ending_writeOutputs: "ending (writeOutputs L w path s) \<noteq> Panic"
  by (simp add: writeOutputs_def writeReport_def removeSource_def nothing_def Let_def
      split: option.split)

text \<open>The validation panics only on a row that does not hold every index of the Header Map.\<close>
lemma validateRow_panic_out_of_range: "validateRow h r = IndexPanic \<Longrightarrow> \<not> inRange h r"
  using validateRow_checks [of h r] by (auto split: option.splits)

text \<open>
  Without the reader's own check of the field count, a header that repeats a name
  would let a shorter row through the test of line 183 and into an access beyond its
  end: the Header Map of six columns below has five keys, and the phone column is at
  index 5.
\<close>
lemma duplicate_header_needs_reader_check:
  "validateRow (makeHeader [ID, FName, MName, LName, PhoneNum, PhoneNum]) janeRow = IndexPanic"
  by (simp add: row_defs makeHeader_def janeRow_def)

text \<open>
  C7. The reader hands the loop only rows that have as many fields as the first record
  it read, so every index that the Header Map holds is below the length of every row
  that reaches line 183, also when the header row repeats a column name: at the top of
  an iteration, an index that the Header Map gives for a name is inside the row that
  \<^verbatim>\<open>r.Read()\<close> answers without an error. An access \<^verbatim>\<open>record[id]\<close> beyond the row
  is the value \<open>IndexPanic\<close> of \<open>validateRow\<close>, which makes the loop answer \<open>None\<close>
  and \<open>processFile\<close> end in \<open>Panic\<close>: on every file the loop ends with a state and
  \<open>processFile\<close> does not end in a panic.
\<close>
theorem no_index_out_of_range:
  "(readerInv fpr (Some h) \<and> fst (readRecord fpr sc) = (row, None) \<and> map_of h name = Some i \<longrightarrow>
      i < length row) \<and>
   (\<exists>s. readLoop L 1 0 input initial = Some s) \<and>
   ending (processFile L w path) \<noteq> Panic"
proof (intro conjI impI)
  assume a: "readerInv fpr (Some h) \<and> fst (readRecord fpr sc) = (row, None) \<and> map_of h name = Some i"
  then have "inRange h row"
    using readerInv_inRange by blast
  moreover from a have "(name, i) \<in> set h"
    using map_of_SomeD by fast
  ultimately show "i < length row"
    by (auto simp: inRange_def list_all_iff)
next
  show "\<exists>s. readLoop L 1 0 input initial = Some s"
    using readLoop_initial [of L input] by blast
next
  show "ending (processFile L w path) \<noteq> Panic"
  proof (cases "Open w")
    case (Inl err)
    then show ?thesis by (simp add: processFile_def nothing_def)
  next
    case (Inr content)
    from readLoop_initial [of L content] obtain s
      where "readLoop L 1 0 content initial = Some s" by blast
    with Inr show ?thesis
      by (simp add: processFile_def nothing_def ending_writeOutputs)
  qed
qed

theorem no_index_out_of_range_witness:
  "readerInv 6 (Some (makeHeader (dst twoPhonesHeader))) \<and>
   fst (readRecord 6 (csvLine 2 (janeRow @ [''555-123-4567'']))) =
     (janeRow @ [''555-123-4567''], None) \<and>
   map_of (makeHeader (dst twoPhonesHeader)) PhoneNum = Some 5 \<and>
   5 < length (janeRow @ [''555-123-4567'']) \<and>
   (\<exists>s. readLoop plainLib 1 0 [twoPhonesHeader, csvLine 2 (janeRow @ [''555-123-4567''])] initial =
          Some s) \<and>
   ending (processFile plainLib
             (allFine [twoPhonesHeader, csvLine 2 (janeRow @ [''555-123-4567''])])
             ''/input/people.csv'') \<noteq> Panic"
proof -
  have hyps: "readerInv 6 (Some (makeHeader (dst twoPhonesHeader))) \<and>
      fst (readRecord 6 (csvLine 2 (janeRow @ [''555-123-4567'']))) =
        (janeRow @ [''555-123-4567''], None) \<and>
      map_of (makeHeader (dst twoPhonesHeader)) PhoneNum = Some 5"
    by (simp add: readerInv_def makeHeader_def example_defs column_defs readRecord_def)
  from no_index_out_of_range
    [of 6 "makeHeader (dst twoPhonesHeader)" "csvLine 2 (janeRow @ [''555-123-4567''])"
        "janeRow @ [''555-123-4567'']" PhoneNum 5 plainLib
        "[twoPhonesHeader, csvLine 2 (janeRow @ [''555-123-4567''])]"
        "allFine [twoPhonesHeader, csvLine 2 (janeRow @ [''555-123-4567''])]"
        "''/input/people.csv''"] hyps
  show ?thesis by blast
qed

subsection \<open>What each line contributes\<close>

lemma entries_count:
  "length (accepted vs) + length (counterRows L n vs) =
   length (filter (\<lambda>v. v \<noteq> BecomesHeader) vs)"
proof (induction vs arbitrary: n)
  case Nil
  then show ?case by simp
next
  case (Cons v vs)
  then show ?case
    by (cases v) (simp_all add: counterRows_step counterRow_def)
qed

lemma verdicts_with_header:
  "length (filter (\<lambda>v. v \<noteq> BecomesHeader) (verdicts (Some h) rs)) = length rs"
  by (induction rs) (auto simp: lineVerdict_def nextHeader_def split: option.splits)

lemma verdicts_without_header:
  "length (filter (\<lambda>v. v \<noteq> BecomesHeader) (verdicts None rs)) =
   linesBeforeHeader rs + linesAfterHeader rs"
proof (induction rs)
  case Nil
  then show ?case by (simp add: linesBeforeHeader_def linesAfterHeader_def)
next
  case (Cons res rs)
  show ?case
  proof (cases "snd res")
    case None
    then show ?thesis
      by (simp add: lineVerdict_def nextHeader_def verdicts_with_header
          linesBeforeHeader_def linesAfterHeader_def unparsed_def)
  next
    case (Some e)
    with Cons show ?thesis
      by (simp add: lineVerdict_def nextHeader_def
          linesBeforeHeader_def linesAfterHeader_def unparsed_def)
  qed
qed


lemma elems_None: "elems None = []"
  by (simp add: elems_def)

text \<open>
  C10, as the claim states it, fails when a line that does not parse comes before the
  header: the line adds an error entry and is not a line read after the header. With
  one garbled line before the header and one valid row after it there are two entries
  for one line read after the header; with a garbled line alone there is one entry and
  no header at all.
\<close>
theorem entries_count_counterexample:
  "entries (readLoop plainLib 1 0 [garbledLine 1, csvLine 2 (dst headerLine), csvLine 3 janeRow] initial) = 2 \<and>
   linesAfterHeader (reads 0 [garbledLine 1, csvLine 2 (dst headerLine), csvLine 3 janeRow]) = 1 \<and>
   entries (readLoop plainLib 1 0 [garbledLine 1] initial) = 1 \<and>
   linesAfterHeader (reads 0 [garbledLine 1]) = 0"
  by (simp add: entries_def elems_def example_defs loop_defs row_defs linesAfterHeader_def
      unparsed_def)

text \<open>
  C10, amended. At the top of an iteration that has a Header Map, the line read adds
  either one Record and no error entry, or one error entry and no Record. At the end of
  the input the number of Records plus the number of error entries is the number of
  lines read after the header plus the number of lines read before it, none of which
  parsed and each of which added one error entry.
\<close>
theorem one_entry_per_line:
  "(readerInv fpr (header s) \<and> header s \<noteq> None \<longrightarrow>
      (\<exists>s1. iteration L line (fst (readRecord fpr sc)) s = Some s1 \<and>
         ((\<exists>rec. records s1 = appendSlice (records s) rec \<and> errs s1 = errs s) \<or>
          (\<exists>e. records s1 = records s \<and> errs s1 = errs s @ [[decimal line, Error L e]])))) \<and>
   (\<exists>s'. readLoop L 1 0 input initial = Some s' \<and>
      length (elems (records s')) + (length (errs s') - 1) =
        linesAfterHeader (reads 0 input) + linesBeforeHeader (reads 0 input))"
proof (intro conjI impI)
  assume a: "readerInv fpr (header s) \<and> header s \<noteq> None"
  then have inv: "readerInv fpr (header s)" and hdr: "header s \<noteq> None" by simp_all
  from hdr have "lineVerdict (header s) (fst (readRecord fpr sc)) \<noteq> BecomesHeader"
    by (auto simp: lineVerdict_def split: option.splits)
  with iteration_verdict [OF inv, of L line sc]
  show "\<exists>s1. iteration L line (fst (readRecord fpr sc)) s = Some s1 \<and>
         ((\<exists>rec. records s1 = appendSlice (records s) rec \<and> errs s1 = errs s) \<or>
          (\<exists>e. records s1 = records s \<and> errs s1 = errs s @ [[decimal line, Error L e]]))"
    by (cases "lineVerdict (header s) (fst (readRecord fpr sc))") auto
next
  from readLoop_initial [of L input] obtain s'
    where loop: "readLoop L 1 0 input initial = Some s'"
      and e: "errs s' = [''LINE_NUM'', ''ERROR_MSG''] #
                 counterRows L 1 (verdicts None (reads 0 input))"
      and r: "records s' = foldl appendSlice None (accepted (verdicts None (reads 0 input)))"
    by blast
  have "length (elems (records s')) + (length (errs s') - 1) =
        length (accepted (verdicts None (reads 0 input))) +
        length (counterRows L 1 (verdicts None (reads 0 input)))"
    by (simp add: e r elems_foldl_appendSlice elems_None)
  also have "\<dots> = linesBeforeHeader (reads 0 input) + linesAfterHeader (reads 0 input)"
    by (simp only: entries_count verdicts_without_header)
  finally show "\<exists>s'. readLoop L 1 0 input initial = Some s' \<and>
      length (elems (records s')) + (length (errs s') - 1) =
        linesAfterHeader (reads 0 input) + linesBeforeHeader (reads 0 input)"
    using loop by auto
qed

theorem one_entry_per_line_witness:
  "readerInv 5 (header afterHeader) \<and> header afterHeader \<noteq> None \<and>
   (\<exists>s1. iteration plainLib 2 (fst (readRecord 5 (csvLine 2 janeRow))) afterHeader = Some s1 \<and>
      ((\<exists>rec. records s1 = appendSlice (records afterHeader) rec \<and> errs s1 = errs afterHeader) \<or>
       (\<exists>e. records s1 = records afterHeader \<and>
            errs s1 = errs afterHeader @ [[decimal 2, Error plainLib e]]))) \<and>
   (\<exists>s'. readLoop plainLib 1 0 [headerLine, csvLine 2 janeRow] initial = Some s' \<and>
      length (elems (records s')) + (length (errs s') - 1) =
        linesAfterHeader (reads 0 [headerLine, csvLine 2 janeRow]) +
        linesBeforeHeader (reads 0 [headerLine, csvLine 2 janeRow]))"
proof -
  have h: "readerInv 5 (header afterHeader) \<and> header afterHeader \<noteq> None"
    by (simp add: readerInv_def afterHeader_def initial_def makeHeader_def headerLine_def
        csvLine_def column_defs)
  from one_entry_per_line [of 5 afterHeader plainLib 2 "csvLine 2 janeRow"
      "[headerLine, csvLine 2 janeRow]"] h
  show ?thesis by blast
qed

subsection \<open>The internal ID\<close>

lemma id_first_checks:
  assumes "map_of h ID = Some i" "i < length r" "length r = length h"
  shows "length (r ! i) \<noteq> 8 \<Longrightarrow> validateRow h r = Invalid (IdNot8 (r ! i))"
    and "length (r ! i) = 8 \<Longrightarrow> Atoi (r ! i) = Inl e \<Longrightarrow>
         validateRow h r = Invalid (IdInvalid (r ! i) e)"
    and "length (r ! i) = 8 \<Longrightarrow> Atoi (r ! i) = Inr n \<Longrightarrow> n < 0 \<Longrightarrow>
         validateRow h r = Invalid (IdNegative n)"
  using assms by (simp_all add: validateRow_def at_def)

lemma id_examples:
  "validateRow (makeHeader (dst headerLine)) (withId ''12345678'') = Valid janeRecord"
  "validateRow (makeHeader (dst headerLine)) (withId ''1234567'') = Invalid (IdNot8 ''1234567'')"
  "validateRow (makeHeader (dst headerLine)) (withId ''-1234567'') = Invalid (IdNegative (- 1234567))"
  "validateRow (makeHeader (dst headerLine)) (withId ''-0000001'') = Invalid (IdNegative (- 1))"
  "validateRow (makeHeader (dst headerLine)) (withId ''+1234567'') =
     Valid (janeRecord\<lparr>InternalID := 1234567\<rparr>)"
  "validateRow (makeHeader (dst headerLine)) (withId ''12ab5678'') =
     Invalid (IdInvalid ''12ab5678'' ErrSyntax)"
  by (simp_all add: row_defs makeHeader_def example_defs withId_def janeRecord_def)

text \<open>
  C3. On the internal ID the length test comes first (\<^verbatim>\<open>len\<close> is 8, counted in
  bytes, which are the characters of ASCII text), then the parse, then the sign. So
  \<^verbatim>\<open>12345678\<close> is accepted with the ID 12345678; \<^verbatim>\<open>1234567\<close> fails the length
  test; \<^verbatim>\<open>-1234567\<close> has 8 characters, parses to a negative number and fails the
  sign test; \<^verbatim>\<open>-0000001\<close> parses to -1 and fails the sign test; \<^verbatim>\<open>+1234567\<close>
  parses to 1234567 and is accepted.
\<close>
theorem id_length_then_parse_then_sign:
  "(map_of h ID = Some i \<and> i < length r \<and> length r = length h \<longrightarrow>
      (length (r ! i) \<noteq> 8 \<longrightarrow> validateRow h r = Invalid (IdNot8 (r ! i))) \<and>
      (length (r ! i) = 8 \<and> Atoi (r ! i) = Inl e \<longrightarrow>
         validateRow h r = Invalid (IdInvalid (r ! i) e)) \<and>
      (length (r ! i) = 8 \<and> Atoi (r ! i) = Inr n \<and> n < 0 \<longrightarrow>
         validateRow h r = Invalid (IdNegative n))) \<and>
   validateRow (makeHeader (dst headerLine)) (withId ''12345678'') = Valid janeRecord \<and>
   validateRow (makeHeader (dst headerLine)) (withId ''1234567'') = Invalid (IdNot8 ''1234567'') \<and>
   validateRow (makeHeader (dst headerLine)) (withId ''-1234567'') =
     Invalid (IdNegative (- 1234567)) \<and>
   validateRow (makeHeader (dst headerLine)) (withId ''-0000001'') = Invalid (IdNegative (- 1)) \<and>
   validateRow (makeHeader (dst headerLine)) (withId ''+1234567'') =
     Valid (janeRecord\<lparr>InternalID := 1234567\<rparr>)"
  using id_first_checks [of h i r] id_examples by blast

theorem id_length_then_parse_then_sign_witness:
  "map_of (makeHeader (dst headerLine)) ID = Some 0 \<and>
   0 < length (withId ''-1234567'') \<and>
   length (withId ''-1234567'') = length (makeHeader (dst headerLine)) \<and>
   length (withId ''-1234567'' ! 0) = 8 \<and>
   Atoi (withId ''-1234567'' ! 0) = Inr (- 1234567) \<and>
   validateRow (makeHeader (dst headerLine)) (withId ''-1234567'') =
     Invalid (IdNegative (- 1234567))"
proof -
  have hyps: "map_of (makeHeader (dst headerLine)) ID = Some 0 \<and>
      0 < length (withId ''-1234567'') \<and>
      length (withId ''-1234567'') = length (makeHeader (dst headerLine))"
    by (simp add: makeHeader_def example_defs column_defs withId_def)
  have parse: "length (withId ''-1234567'' ! 0) = 8 \<and>
      Atoi (withId ''-1234567'' ! 0) = Inr (- 1234567) \<and> (- 1234567 :: int) < 0"
    by (simp add: withId_def atoi_defs)
  from id_length_then_parse_then_sign
    [of "makeHeader (dst headerLine)" 0 "withId ''-1234567''" ErrSyntax "- 1234567"] hyps parse
  show ?thesis by blast
qed

subsection \<open>The error report\<close>

lemma report_writeOutputs:
  "report (writeOutputs L w path s) =
     (if WriteFile w = None \<and> OpenFile w = None \<and> WriteAll w = None \<and> 1 < length (errs s)
      then Some (Base path, errs s) else None)"
  by (simp add: writeOutputs_def writeReport_def removeSource_def nothing_def Let_def
      split: option.split)

text \<open>
  What the code does: \<open>errs\<close> at the end of the loop is the heading followed by one
  row for each rejected answer of the reader, in their order, each with the value of
  the counter \<^verbatim>\<open>line\<close>; the report is written exactly when the file is a CSV file,
  no call before it fails, and there is at least one such row.
\<close>
lemma report_holds_counter_rows:
  "(\<exists>s. readLoop L 1 0 input initial = Some s \<and>
        errs s = [''LINE_NUM'', ''ERROR_MSG''] #
                 counterRows L 1 (verdicts None (reads 0 input))) \<and>
   (Open w = Inr input \<longrightarrow>
      report (processFile L w path) =
        (if ToLower (Ext path) = ''.csv'' \<and> WriteFile w = None \<and> OpenFile w = None \<and>
            WriteAll w = None \<and> counterRows L 1 (verdicts None (reads 0 input)) \<noteq> []
         then Some (Base path,
                    [''LINE_NUM'', ''ERROR_MSG''] #
                    counterRows L 1 (verdicts None (reads 0 input)))
         else None))"
proof -
  from readLoop_initial [of L input] obtain s
    where loop: "readLoop L 1 0 input initial = Some s"
      and e: "errs s = [''LINE_NUM'', ''ERROR_MSG''] #
                 counterRows L 1 (verdicts None (reads 0 input))"
    by blast
  have "1 < length (errs s) \<longleftrightarrow> counterRows L 1 (verdicts None (reads 0 input)) \<noteq> []"
    by (simp add: e)
  with loop e show ?thesis
    by (auto simp: processFile_def report_writeOutputs nothing_def)
qed

text \<open>
  C6. The code does not do what the claim says. The counter \<^verbatim>\<open>line\<close> goes up by
  one with every answer of \<^verbatim>\<open>r.Read()\<close>, and the reader skips the empty lines of
  the file (and reads a quoted field over several lines) within one answer. In a file
  with the header on line 1, an empty line 2 and a row on line 3, the Row Error of the
  row carries the number 2, not 3: for a row of two fields the report holds
  \<^verbatim>\<open>2\<close> next to the reader's own message about line 3. The heading and the order
  of the rows are as the claim says.
\<close>
theorem report_numbers_answers_not_lines:
  "recLine (csvLine 3 shortRow) = 3 \<and>
   readLoop L 1 0 [headerLine, csvLine 3 shortRow] initial =
     Some \<lparr>header = Some (makeHeader (dst headerLine)),
           records = None,
           errs = [[''LINE_NUM'', ''ERROR_MSG''],
                   [''2'', ''record on line 3: wrong number of fields'']]\<rparr> \<and>
   report (processFile L (allFine [headerLine, csvLine 3 shortRow]) ''/input/people.csv'') =
     Some (''people.csv'',
           [[''LINE_NUM'', ''ERROR_MSG''],
            [''2'', ''record on line 3: wrong number of fields'']]) \<and>
   recLine (csvLine 3 shortIdRow) = 3 \<and>
   readLoop L 1 0 [headerLine, csvLine 3 shortIdRow] initial =
     Some \<lparr>header = Some (makeHeader (dst headerLine)),
           records = None,
           errs = [[''LINE_NUM'', ''ERROR_MSG''], [''2'', Error L (IdNot8 ''1234567'')]]\<rparr>"
  by (simp add: shortRow_def example_defs loop_defs row_defs run_defs decimal.simps)

subsection \<open>The JSON document\<close>

lemma json_processFile:
  "json (processFile L w path) =
     (case Open w of
        Inl err \<Rightarrow> None
      | Inr input \<Rightarrow>
          (if ToLower (Ext path) = ''.csv'' \<and> WriteFile w = None
           then Some (Join [TrimSuffix (Base path) (Ext path), ''json''] ''.'',
                      MarshalIndent L
                        (foldl appendSlice None (accepted (verdicts None (reads 0 input)))))
           else None))"
proof (cases "Open w")
  case (Inl err)
  then show ?thesis by (simp add: processFile_def nothing_def)
next
  case (Inr input)
  from readLoop_initial [of L input] obtain s
    where loop: "readLoop L 1 0 input initial = Some s"
      and r: "records s = foldl appendSlice None (accepted (verdicts None (reads 0 input)))"
    by blast
  have "json (writeOutputs L w path s) =
      (if WriteFile w = None
       then Some (Join [TrimSuffix (Base path) (Ext path), ''json''] ''.'', MarshalIndent L (records s))
       else None)"
    by (simp add: writeOutputs_def writeReport_def removeSource_def nothing_def Let_def
        split: option.split)
  with Inr loop r show ?thesis
    by (simp add: processFile_def nothing_def)
qed

text \<open>
  C9. The bytes of the JSON document are a function of the content of the file alone
  (the records that the reader scans from its bytes): two runs on the same content
  that both write their JSON file write the same bytes, whatever the paths are and
  whatever the operating system answers to the other calls.
\<close>
theorem same_content_same_json:
  assumes "Open w1 = Open w2"
    and "json (processFile L w1 path1) \<noteq> None"
    and "json (processFile L w2 path2) \<noteq> None"
  shows "map_option snd (json (processFile L w1 path1)) =
         map_option snd (json (processFile L w2 path2))"
  using assms by (auto simp: json_processFile split: sum.splits if_splits)

theorem same_content_same_json_witness:
  "Open (allFine [headerLine, csvLine 2 janeRow]) =
   Open ((allFine [headerLine, csvLine 2 janeRow])\<lparr>Remove := Some ''permission denied''\<rparr>) \<and>
   json (processFile plainLib (allFine [headerLine, csvLine 2 janeRow]) ''/input/people.csv'') \<noteq> None \<and>
   json (processFile plainLib ((allFine [headerLine, csvLine 2 janeRow])\<lparr>Remove := Some ''permission denied''\<rparr>)
           ''/retry/again.CSV'') \<noteq> None \<and>
   map_option snd (json (processFile plainLib (allFine [headerLine, csvLine 2 janeRow]) ''/input/people.csv'')) =
   map_option snd (json (processFile plainLib ((allFine [headerLine, csvLine 2 janeRow])\<lparr>Remove := Some ''permission denied''\<rparr>)
           ''/retry/again.CSV''))"
proof -
  have content: "Open (allFine [headerLine, csvLine 2 janeRow]) =
      Open ((allFine [headerLine, csvLine 2 janeRow])\<lparr>Remove := Some ''permission denied''\<rparr>)"
    by (simp add: allFine_def)
  have first: "json (processFile plainLib (allFine [headerLine, csvLine 2 janeRow]) ''/input/people.csv'') \<noteq> None"
    by (simp add: json_processFile allFine_def ToLower_def Ext_def lowerByte_def)
  have second: "json (processFile plainLib ((allFine [headerLine, csvLine 2 janeRow])\<lparr>Remove := Some ''permission denied''\<rparr>)
           ''/retry/again.CSV'') \<noteq> None"
    by (simp add: json_processFile allFine_def ToLower_def Ext_def lowerByte_def)
  from same_content_same_json [OF content first second] content first second
  show ?thesis by blast
qed

text \<open>Whenever no row is accepted, the JSON document is \<^verbatim>\<open>null\<close>.\<close>
lemma no_record_gives_null:
  assumes "Open w = Inr input" "ToLower (Ext path) = ''.csv''" "WriteFile w = None"
    and "accepted (verdicts None (reads 0 input)) = []"
  shows "map_option snd (json (processFile L w path)) = Some ''null''"
  using assms by (simp add: json_processFile MarshalIndent_def)

text \<open>
  C2. The code does not do what the claim says. The slice \<^verbatim>\<open>records\<close> of line 138
  is nil until the first \<^verbatim>\<open>append\<close>, and \<^verbatim>\<open>json.MarshalIndent\<close> encodes a nil
  slice as \<^verbatim>\<open>null\<close>: a file with only its header, and a file whose rows all fail,
  get the JSON document \<^verbatim>\<open>null\<close>. A slice that is empty and not nil would give
  \<^verbatim>\<open>[]\<close>.
\<close>
theorem empty_result_written_as_null:
  "json (processFile L (allFine [headerLine]) ''/input/people.csv'') =
     Some (''people.json'', ''null'') \<and>
   json (processFile L (allFine [headerLine, csvLine 2 shortIdRow]) ''/input/people.csv'') =
     Some (''people.json'', ''null'') \<and>
   MarshalIndent L (Some []) = ''[]''"
  by (simp add: run_defs example_defs loop_defs MarshalIndent_def row_defs)

subsection \<open>A header that repeats a name\<close>

lemma fillHeader_keys:
  "fst ` set (fillHeader i rec h) = set rec \<union> fst ` set h"
  by (induction rec arbitrary: i h) (auto simp: AList.dom_update)

lemma fillHeader_distinct:
  "distinct (map fst h) \<Longrightarrow> distinct (map fst (fillHeader i rec h))"
  by (induction rec arbitrary: i h) (auto simp: AList.distinct_update)

text \<open>Go's \<^verbatim>\<open>len(header)\<close> is the number of different names of the header row.\<close>
lemma makeHeader_length: "length (makeHeader rec) = card (set rec)"
proof -
  have "distinct (map fst (makeHeader rec))"
    by (simp add: makeHeader_def fillHeader_distinct)
  then have "length (makeHeader rec) = card (fst ` set (makeHeader rec))"
    using distinct_card [of "map fst (makeHeader rec)"] by simp
  then show ?thesis
    by (simp add: makeHeader_def fillHeader_keys)
qed

text \<open>Under such a header every row with the field count of the header row is rejected.\<close>
lemma repeated_name_rejects_every_row:
  assumes "\<not> distinct hrow" "length r = length hrow"
  shows "validateRow (makeHeader hrow) r = Invalid (FieldCount (length r) (card (set hrow)))"
proof -
  from assms(1) have "card (set hrow) \<noteq> length hrow"
    using card_distinct by blast
  with assms(2) show ?thesis
    by (simp add: validateRow_def makeHeader_length)
qed

text \<open>
  C4. The code does not do what the claim says. The test of line 183 compares the field
  count of the row with \<^verbatim>\<open>len(header)\<close>, the number of keys of the Header Map,
  which is smaller than the field count of the header row when that row repeats a
  name. The header below has six fields and five different names; the row has six
  fields, as the header row has, and is rejected with a count error.
\<close>
theorem duplicate_header_rejects_matching_row:
  "length (dst twoPhonesHeader) = 6 \<and> length (janeRow @ [''555-123-4567'']) = 6 \<and>
   readLoop L 1 0 [twoPhonesHeader, csvLine 2 (janeRow @ [''555-123-4567''])] initial =
     Some \<lparr>header = Some [(ID, 0), (FName, 1), (MName, 2), (LName, 3), (PhoneNum, 5)],
           records = None,
           errs = [[''LINE_NUM'', ''ERROR_MSG''],
                   [''2'', ''err: number of fields: 6 does not match header: 5'']]\<rparr>"
  by (simp add: example_defs loop_defs row_defs decimal.simps)

subsection \<open>The rules of the specification and the checks of the code\<close>

lemma chars_ascii: "ascii s \<Longrightarrow> chars s = length s"
  by (induction s) (auto simp: ascii_def chars_def continuation_def)

lemma firstFailure_pointwise:
  "list_all2 (\<lambda>f g. f h r = g h r) fs gs \<Longrightarrow> firstFailure fs h r = firstFailure gs h r"
  by (induction fs gs rule: list_all2_induct) (simp_all split: option.split)

text \<open>
  Under a header row that repeats no name, and on a row whose internal ID and names are
  ASCII text, the rules of the specification and the checks of the code give the same
  answer: the field count against the map and the lengths in bytes are the only
  differences.
\<close>
lemma spec_rules_are_checks:
  assumes "distinct hrow"
    and "ascii (cell (makeHeader hrow) r ID)" "ascii (cell (makeHeader hrow) r FName)"
    and "ascii (cell (makeHeader hrow) r MName)" "ascii (cell (makeHeader hrow) r LName)"
  shows "firstFailure (spec_rules hrow) (makeHeader hrow) r = firstFailure checks (makeHeader hrow) r"
proof -
  from assms(1) have "length (makeHeader hrow) = length hrow"
    by (simp add: makeHeader_length distinct_card)
  with assms(2-) have "list_all2 (\<lambda>f g. f (makeHeader hrow) r = g (makeHeader hrow) r)
      (spec_rules hrow) checks"
    by (simp add: spec_rules_def checks_def spec_fieldCount_def check_fieldCount_def
        spec_present_def check_present_def spec_idLength_def check_idLength_def
        spec_idParse_def check_idParse_def spec_idSign_def check_idSign_def
        spec_atMost15_def check_atMost15_def spec_nonEmpty_def check_nonEmpty_def
        spec_phoneFormat_def check_phoneFormat_def chars_ascii)
  then show ?thesis by (rule firstFailure_pointwise)
qed

text \<open>
  C1. The code does not do what the claim says. Its checks come in the order of section
  4.2 and the first failure ends the row with one error, but its first check compares
  the field count of the row with the number of keys of the Header Map (the defect of
  C4): under a header row that repeats a name, a row with the field count of the
  header row passes all fifteen rules of the specification and still is rejected with
  a count error, so no Record is appended for it.
\<close>
theorem passing_row_rejected_under_repeated_name:
  "length twoPhonesRow = length (dst twoPhonesHeader) \<and>
   firstFailure (spec_rules (dst twoPhonesHeader)) (makeHeader (dst twoPhonesHeader)) twoPhonesRow = None \<and>
   validateRow (makeHeader (dst twoPhonesHeader)) twoPhonesRow = Invalid (FieldCount 6 5) \<and>
   readLoop L 1 0 [twoPhonesHeader, csvLine 2 twoPhonesRow] initial =
     Some \<lparr>header = Some (makeHeader (dst twoPhonesHeader)),
           records = None,
           errs = [[''LINE_NUM'', ''ERROR_MSG''], [''2'', Error L (FieldCount 6 5)]]\<rparr>"
  by (simp add: spec_defs cell_def twoPhonesRow_def example_defs makeHeader_def column_defs
      atoi_defs phoneMatch_def validateRow_def at_def loop_defs decimal.simps)

lemma accentedName_expanded:
  "accentedName = concat [[CHR 0xC3, CHR 0xA9], [CHR 0xC3, CHR 0xA9], [CHR 0xC3, CHR 0xA9],
     [CHR 0xC3, CHR 0xA9], [CHR 0xC3, CHR 0xA9], [CHR 0xC3, CHR 0xA9], [CHR 0xC3, CHR 0xA9],
     [CHR 0xC3, CHR 0xA9], [CHR 0xC3, CHR 0xA9], [CHR 0xC3, CHR 0xA9], [CHR 0xC3, CHR 0xA9],
     [CHR 0xC3, CHR 0xA9], [CHR 0xC3, CHR 0xA9], [CHR 0xC3, CHR 0xA9], [CHR 0xC3, CHR 0xA9]]"
  by (simp add: accentedName_def eval_nat_numeral)

text \<open>
  The checks of lines 212, 226 and 236 (and 193) count bytes where the rules count
  characters: a first name of fifteen characters in thirty bytes passes the rules and
  is rejected by the code.
\<close>
lemma accented_name_counted_in_bytes:
  "chars accentedName = 15 \<and> length accentedName = 30 \<and>
   firstFailure (spec_rules (dst headerLine)) (makeHeader (dst headerLine))
     [''12345678'', accentedName, ''Q'', ''Doe'', ''555-123-4567''] = None \<and>
   validateRow (makeHeader (dst headerLine))
     [''12345678'', accentedName, ''Q'', ''Doe'', ''555-123-4567''] =
     Invalid (FirstTooLong accentedName)"
  by (simp add: spec_defs cell_def accentedName_expanded example_defs makeHeader_def column_defs
      atoi_defs phoneMatch_def validateRow_def at_def)

subsection \<open>Failures of the operating system\<close>

text \<open>
  C5. The code does not do what the claim says for the error report. When the report
  cannot be opened (line 283) or written (line 289) the code calls
  \<^verbatim>\<open>logrus.Fatal\<close>, which ends the process; a failure to write the JSON file or to
  remove the source file is returned to the caller.
\<close>
theorem report_failure_is_fatal:
  "ending (processFile L ((allFine [headerLine, csvLine 2 shortIdRow])\<lparr>OpenFile := Some ''permission denied''\<rparr>)
            ''/input/people.csv'') = Fatal ''permission denied'' \<and>
   ending (processFile L ((allFine [headerLine, csvLine 2 shortIdRow])\<lparr>WriteAll := Some ''no space left''\<rparr>)
            ''/input/people.csv'') = Fatal ''no space left'' \<and>
   ending (processFile L ((allFine [headerLine, csvLine 2 shortIdRow])\<lparr>WriteFile := Some ''no space left''\<rparr>)
            ''/input/people.csv'') = Return (Some ''no space left'') \<and>
   ending (processFile L ((allFine [headerLine, csvLine 2 shortIdRow])\<lparr>Remove := Some ''permission denied''\<rparr>)
            ''/input/people.csv'') = Return (Some ''permission denied'')"
  by (simp add: run_defs example_defs loop_defs row_defs)

subsection \<open>Files that are not CSV files\<close>

text \<open>
  C8. When the extension of the path, lower-cased, is not \<^verbatim>\<open>.csv\<close>, the call writes
  no JSON file and no error report, leaves the source file in place and returns nil,
  whatever the operating system would have answered.
\<close>
theorem other_extension_ignored:
  assumes "ToLower (Ext path) \<noteq> ''.csv''"
  shows "processFile L w path =
           \<lparr>json = None, report = None, removed = False, ending = Return None\<rparr>"
  using assms by (simp add: processFile_def nothing_def)

theorem other_extension_ignored_witness:
  "ToLower (Ext ''/input/notes.TXT'') \<noteq> ''.csv'' \<and>
   processFile plainLib (allFine [headerLine, csvLine 2 janeRow]) ''/input/notes.TXT'' =
     \<lparr>json = None, report = None, removed = False, ending = Return None\<rparr>"
proof -
  have ext: "ToLower (Ext ''/input/notes.TXT'') \<noteq> ''.csv''"
    by (simp add: ToLower_def Ext_def lowerByte_def)
  from other_extension_ignored [OF ext] ext show ?thesis by simp
qed

end
